theory Spec2Isabelle
  imports Complex_Main "HOL-Library.Char_ord" "HOL-Library.List_Lexorder"
begin

section \<open>StackIt: the question catalog and the account directory\<close>

text \<open>
  The two Flask blueprints \<^verbatim>\<open>src/questions.py\<close> and \<^verbatim>\<open>src/auth.py\<close> keep their data in
  the module-level lists \<^verbatim>\<open>mock_questions\<close> and \<^verbatim>\<open>mock_users\<close>. Every handler is
  modelled as a function of the list it reads, returning the response together with
  the list as the handler leaves it. A response is \<open>Inr\<close> of the JSON payload or
  \<open>Inl\<close> of the error the handler answers with.

  The dictionaries of the source all have a fixed set of keys, so they are records;
  the keys \<^verbatim>\<open>id\<close> are the fields \<open>qid\<close>, \<open>uid\<close>, \<open>author_id\<close> and \<open>tag_id\<close>.
  Strings are \<open>string\<close>, lists of 8-bit characters compared by their codes; a
  character outside ASCII is held as the bytes of its UTF-8 encoding, which keeps the
  order of two strings and the places where one occurs in another. The
  fields of a request body are JSON strings when they are present, and \<open>None\<close> when
  the key is absent from the body; a body that is not a JSON object, and a field that
  holds a number, a list or an object where the handlers expect a string, are not
  represented.
\<close>

subsection \<open>Errors\<close>

datatype error =
    ValidationError
  | AuthError
  | NotFoundError
  | ConflictError
  | UnhandledError

fun status_code :: "error \<Rightarrow> nat" where
  "status_code ValidationError = 400"
| "status_code AuthError = 401"
| "status_code NotFoundError = 404"
| "status_code ConflictError = 409"
| "status_code UnhandledError = 500"

subsection \<open>Python primitives used by the handlers\<close>



text \<open>\<^verbatim>\<open>s in t\<close> on strings: \<open>s\<close> occurs in \<open>t\<close> as a contiguous block.\<close>

fun startswith :: "string \<Rightarrow> string \<Rightarrow> bool" where
  "startswith t [] = True"
| "startswith [] (c # s) = False"
| "startswith (d # t) (c # s) = (d = c \<and> startswith t s)"

fun str_in :: "string \<Rightarrow> string \<Rightarrow> bool" where
  "str_in s [] = (s = [])"
| "str_in s (c # t) = (startswith (c # t) s \<or> str_in s t)"

text \<open>The truth value of a string: the empty string is false.\<close>

definition truthy :: "string \<Rightarrow> bool" where
  "truthy s = (s \<noteq> [])"

text \<open>
  The test \<^verbatim>\<open>not data.get(k)\<close>: true when the key is absent and when its value is
  the empty string.
\<close>

fun not_given :: "string option \<Rightarrow> bool" where
  "not_given None = True"
| "not_given (Some s) = (\<not> truthy s)"

text \<open>
  \<^verbatim>\<open>xs[start:end]\<close>: a negative index counts from the end, and both indices are
  clamped to the list.
\<close>

definition slice_index :: "int \<Rightarrow> int \<Rightarrow> int" where
  "slice_index n i = (if i < 0 then max 0 (i + n) else min i n)"

definition py_slice :: "'a list \<Rightarrow> int \<Rightarrow> int \<Rightarrow> 'a list" where
  "py_slice xs start end =
     (let n = int (length xs);
          s = slice_index n start;
          e = slice_index n end
      in take (nat (e - s)) (drop (nat s) xs))"

text \<open>
  \<^verbatim>\<open>list.sort(key=..., reverse=...)\<close>: a stable sort; with \<^verbatim>\<open>reverse=True\<close> the list
  is reversed, sorted and reversed again, so that equal keys keep their order.
\<close>

definition py_sort :: "('a \<Rightarrow> 'k::linorder) \<Rightarrow> bool \<Rightarrow> 'a list \<Rightarrow> 'a list" where
  "py_sort key reverse xs =
     (if reverse then rev (sort_key key (rev xs)) else sort_key key xs)"

text \<open>\<^verbatim>\<open>next((x for x in xs if p(x)), None)\<close>.\<close>

fun next_where :: "('a \<Rightarrow> bool) \<Rightarrow> 'a list \<Rightarrow> 'a option" where
  "next_where p [] = None"
| "next_where p (x # xs) = (if p x then Some x else next_where p xs)"

subsection \<open>The question catalog\<close>

record author =
  author_id :: int
  author_name :: string
  author_reputation :: int

record tag =
  tag_id :: int
  tag_name :: string

record question =
  qid :: int
  title :: string
  description :: string
  author :: author
  tags :: "tag list"
  voteCount :: int
  answerCount :: int
  viewCount :: int
  isResolved :: bool
  createdAt :: string
  updatedAt :: string

definition mock_questions :: "question list" where
  "mock_questions =
    [\<lparr>qid = 1,
      title = ''How to implement authentication in React?'',
      description = ''I'' @ [CHR 0x27] @ ''m building a React application and need to implement user authentication. What are the best practices for handling login, logout, and protecting routes?'',
      author = \<lparr>author_id = 1, author_name = ''John Doe'', author_reputation = 1250\<rparr>,
      tags = [\<lparr>tag_id = 1, tag_name = ''react''\<rparr>, \<lparr>tag_id = 2, tag_name = ''authentication''\<rparr>],
      voteCount = 15, answerCount = 3, viewCount = 245, isResolved = True,
      createdAt = ''2024-01-15T10:30:00Z'', updatedAt = ''2024-01-16T14:20:00Z''\<rparr>,
     \<lparr>qid = 2,
      title = ''Best practices for Node.js API design'',
      description = ''What are the recommended patterns and practices for designing RESTful APIs in Node.js? I'' @ [CHR 0x27] @ ''m particularly interested in error handling, validation, and security.'',
      author = \<lparr>author_id = 2, author_name = ''Jane Smith'', author_reputation = 890\<rparr>,
      tags = [\<lparr>tag_id = 3, tag_name = ''nodejs''\<rparr>, \<lparr>tag_id = 4, tag_name = ''api''\<rparr>,
              \<lparr>tag_id = 5, tag_name = ''rest''\<rparr>],
      voteCount = 8, answerCount = 2, viewCount = 156, isResolved = False,
      createdAt = ''2024-01-14T16:45:00Z'', updatedAt = ''2024-01-14T16:45:00Z''\<rparr>,
     \<lparr>qid = 3,
      title = ''Database optimization techniques'',
      description = ''My application is experiencing slow database queries. What are some effective techniques for optimizing database performance in a web application?'',
      author = \<lparr>author_id = 3, author_name = ''Mike Johnson'', author_reputation = 2100\<rparr>,
      tags = [\<lparr>tag_id = 6, tag_name = ''database''\<rparr>, \<lparr>tag_id = 7, tag_name = ''optimization''\<rparr>,
              \<lparr>tag_id = 8, tag_name = ''performance''\<rparr>],
      voteCount = 22, answerCount = 5, viewCount = 387, isResolved = True,
      createdAt = ''2024-01-13T09:15:00Z'', updatedAt = ''2024-01-15T11:30:00Z''\<rparr>]"

text \<open>
  The query of \<^verbatim>\<open>GET /questions\<close>, as the five local variables of \<^verbatim>\<open>get_questions\<close>
  hold it once the defaults are applied and \<^verbatim>\<open>page\<close> and \<^verbatim>\<open>limit\<close> are parsed; a
  \<^verbatim>\<open>page\<close> or \<^verbatim>\<open>limit\<close> that \<^verbatim>\<open>int\<close> rejects ends the handler before it reads the
  catalog.
\<close>

record query =
  page :: int
  limit :: int
  search :: string
  sort_by :: string
  sort_order :: string

definition default_query :: query where
  "default_query =
     \<lparr>page = 1, limit = 20, search = '''', sort_by = ''createdAt'', sort_order = ''desc''\<rparr>"

record pagination =
  p_page :: int
  p_limit :: int
  total :: int
  totalPages :: int
  hasPrev :: bool
  hasNext :: bool

record listing =
  questions :: "question list"
  pagination :: pagination

text \<open>
  The condition of the list comprehension of \<^verbatim>\<open>get_questions\<close>, with \<open>lower\<close> for
  \<^verbatim>\<open>str.lower\<close>.
\<close>

definition matches :: "(string \<Rightarrow> string) \<Rightarrow> string \<Rightarrow> question \<Rightarrow> bool" where
  "matches lower s q =
     (str_in (lower s) (lower (title q)) \<or> str_in (lower s) (lower (description q)))"

text \<open>The chain of \<^verbatim>\<open>if sort_by == ...\<close>, each branch a sort of the list in place.\<close>

definition sort_questions :: "string \<Rightarrow> bool \<Rightarrow> question list \<Rightarrow> question list" where
  "sort_questions sb reverse qs =
     (if sb = ''voteCount'' then py_sort voteCount reverse qs
      else if sb = ''answerCount'' then py_sort answerCount reverse qs
      else if sb = ''viewCount'' then py_sort viewCount reverse qs
      else py_sort createdAt reverse qs)"

text \<open>
  \<^verbatim>\<open>get_questions\<close>. With an empty search string \<^verbatim>\<open>filtered_questions\<close> is the list
  \<^verbatim>\<open>mock_questions\<close> itself, and \<^verbatim>\<open>sort\<close> sorts that list in place; with a search
  string it is a new list and the catalog is left alone. The division by \<^verbatim>\<open>limit\<close>
  raises \<^verbatim>\<open>ZeroDivisionError\<close> when \<^verbatim>\<open>limit\<close> is 0, after the sort has happened, and
  the handler answers 500. The second component is \<^verbatim>\<open>mock_questions\<close> afterwards,
  and \<open>lower\<close> is \<^verbatim>\<open>str.lower\<close>.
\<close>

definition get_questions ::
  "(string \<Rightarrow> string) \<Rightarrow> question list \<Rightarrow> query \<Rightarrow> (error + listing) \<times> question list" where
  "get_questions lower catalog a =
     (let reverse = (sort_order a = ''desc'');
          filtered_questions =
            sort_questions (sort_by a) reverse
              (if truthy (search a) then filter (matches lower (search a)) catalog else catalog);
          catalog' = (if truthy (search a) then catalog else filtered_questions);
          tot = int (length filtered_questions);
          start = (page a - 1) * limit a;
          end = start + limit a;
          qs = py_slice filtered_questions start end
      in if limit a = 0 then (Inl UnhandledError, catalog')
         else
           (let total_pages = (tot + limit a - 1) div limit a
            in (Inr \<lparr>questions = qs,
                     pagination = \<lparr>p_page = page a, p_limit = limit a, total = tot,
                                   totalPages = total_pages,
                                   hasPrev = (page a > 1),
                                   hasNext = (page a < total_pages)\<rparr>\<rparr>,
                catalog')))"

text \<open>\<^verbatim>\<open>get_question\<close>: the first question with the id, or 404.\<close>

definition get_question :: "question list \<Rightarrow> int \<Rightarrow> error + question" where
  "get_question catalog question_id =
     (case next_where (\<lambda>q. qid q = question_id) catalog of
        None \<Rightarrow> Inl NotFoundError
      | Some q \<Rightarrow> Inr q)"

text \<open>
  The body of \<^verbatim>\<open>POST /questions\<close>; \<open>None\<close> for the whole body is a request without
  a JSON object.
\<close>

record new_question_body =
  body_title :: "string option"
  body_description :: "string option"
  body_tags :: "tag list option"

definition create_question ::
  "question list \<Rightarrow> new_question_body option \<Rightarrow> (error + question) \<times> question list" where
  "create_question catalog data =
     (case data of
        None \<Rightarrow> (Inl ValidationError, catalog)
      | Some d \<Rightarrow>
          if not_given (body_title d) \<or> not_given (body_description d)
          then (Inl ValidationError, catalog)
          else
            (let new_question =
               \<lparr>qid = int (length catalog) + 1,
                title = the (body_title d),
                description = the (body_description d),
                author = \<lparr>author_id = 1, author_name = ''Current User'', author_reputation = 100\<rparr>,
                tags = (case body_tags d of None \<Rightarrow> [] | Some ts \<Rightarrow> ts),
                voteCount = 0, answerCount = 0, viewCount = 0, isResolved = False,
                createdAt = ''2024-01-16T12:00:00Z'',
                updatedAt = ''2024-01-16T12:00:00Z''\<rparr>
             in (Inr new_question, catalog @ [new_question])))"

subsection \<open>The account directory\<close>

record user =
  uid :: int
  email :: string
  name :: string
  password :: string
  reputation :: int
  avatar :: "string option"

definition mock_users :: "user list" where
  "mock_users =
     [\<lparr>uid = 1, email = ''demo@stackit.com'', name = ''Demo User'', password = ''demo123'',
       reputation = 1250, avatar = None\<rparr>]"

text \<open>A JSON value of a user object, and the user dictionary as its list of items.\<close>

datatype jvalue = JInt int | JStr string | JNull

definition items :: "user \<Rightarrow> (string \<times> jvalue) list" where
  "items u =
     [(''id'', JInt (uid u)),
      (''email'', JStr (email u)),
      (''name'', JStr (name u)),
      (''password'', JStr (password u)),
      (''reputation'', JInt (reputation u)),
      (''avatar'', case avatar u of None \<Rightarrow> JNull | Some s \<Rightarrow> JStr s)]"

text \<open>\<^verbatim>\<open>{k: v for k, v in user.items() if k != 'password'}\<close>.\<close>

definition user_data :: "user \<Rightarrow> (string \<times> jvalue) list" where
  "user_data u = filter (\<lambda>(k, v). k \<noteq> ''password'') (items u)"

record tokens =
  accessToken :: string
  refreshToken :: string

record session =
  session_user :: "(string \<times> jvalue) list"
  session_tokens :: tokens

definition mock_tokens :: tokens where
  "mock_tokens = \<lparr>accessToken = ''mock_access_token'', refreshToken = ''mock_refresh_token''\<rparr>"

record register_body =
  reg_email :: "string option"
  reg_password :: "string option"
  reg_name :: "string option"

definition register ::
  "user list \<Rightarrow> register_body option \<Rightarrow> (error + session) \<times> user list" where
  "register users data =
     (case data of
        None \<Rightarrow> (Inl ValidationError, users)
      | Some d \<Rightarrow>
          if not_given (reg_email d) \<or> not_given (reg_password d) \<or> not_given (reg_name d)
          then (Inl ValidationError, users)
          else
            (case next_where (\<lambda>u. email u = the (reg_email d)) users of
               Some existing_user \<Rightarrow> (Inl ConflictError, users)
             | None \<Rightarrow>
                 (let new_user =
                    \<lparr>uid = int (length users) + 1,
                     email = the (reg_email d),
                     name = the (reg_name d),
                     password = the (reg_password d),
                     reputation = 0,
                     avatar = None\<rparr>
                  in (Inr \<lparr>session_user = user_data new_user, session_tokens = mock_tokens\<rparr>,
                      users @ [new_user]))))"

record login_body =
  login_email :: "string option"
  login_password :: "string option"

definition login :: "user list \<Rightarrow> login_body option \<Rightarrow> error + session" where
  "login users data =
     (case data of
        None \<Rightarrow> Inl ValidationError
      | Some d \<Rightarrow>
          if not_given (login_email d) \<or> not_given (login_password d)
          then Inl ValidationError
          else
            (case next_where (\<lambda>u. email u = the (login_email d)) users of
               None \<Rightarrow> Inl AuthError
             | Some u \<Rightarrow>
                 if password u \<noteq> the (login_password d) then Inl AuthError
                 else Inr \<lparr>session_user = user_data u, session_tokens = mock_tokens\<rparr>))"


subsection \<open>Vocabulary of the properties\<close>


definition key_le :: "string \<Rightarrow> question \<Rightarrow> question \<Rightarrow> bool" where
  "key_le sb x y =
     (if sb = ''voteCount'' then voteCount x \<le> voteCount y
      else if sb = ''answerCount'' then answerCount x \<le> answerCount y
      else if sb = ''viewCount'' then viewCount x \<le> viewCount y
      else createdAt x \<le> createdAt y)"

text \<open>
  \<open>missing_fields data\<close>: the request to create a question has no body, or its title
  or its description is absent or the empty string.
\<close>

definition missing_fields :: "new_question_body option \<Rightarrow> bool" where
  "missing_fields data =
     (case data of
        None \<Rightarrow> True
      | Some d \<Rightarrow>
          body_title d = None \<or> body_title d = Some []
          \<or> body_description d = None \<or> body_description d = Some [])"

section \<open>Properties\<close>

subsection \<open>Facts about the primitives\<close>

lemma next_where_None: "next_where p xs = None \<longleftrightarrow> (\<forall>x\<in>set xs. \<not> p x)"
  by (induction xs) auto

lemma next_where_Some: "next_where p xs = Some x \<Longrightarrow> x \<in> set xs \<and> p x"
  by (induction xs) (auto split: if_splits)




lemma py_slice_take_drop: "\<exists>j k. py_slice xs s e = take k (drop j xs)"
  unfolding py_slice_def Let_def by blast


lemma sorted_wrt_py_slice: "sorted_wrt R xs \<Longrightarrow> sorted_wrt R (py_slice xs s e)"
proof -
  assume a: "sorted_wrt R xs"
  obtain j k where jk: "py_slice xs s e = take k (drop j xs)"
    using py_slice_take_drop by blast
  from a have "sorted_wrt R (drop j xs)" by (rule sorted_wrt_drop)
  then have "sorted_wrt R (take k (drop j xs))" by (rule sorted_wrt_take)
  with jk show ?thesis by simp
qed

lemma py_slice_empty:
  assumes "int (length xs) \<le> s" "0 \<le> s"
  shows "py_slice xs s e = []"
  using assms by (simp add: py_slice_def slice_index_def Let_def)


lemma length_py_sort: "length (py_sort key r xs) = length xs"
  by (simp add: py_sort_def)

lemma py_sort_ascending: "sorted_wrt (\<lambda>x y. key x \<le> key y) (py_sort key False xs)"
proof -
  have "sorted (map key (sort_key key xs))" by (rule sorted_sort_key)
  then show ?thesis by (simp add: py_sort_def sorted_wrt_map)
qed

lemma py_sort_descending: "sorted_wrt (\<lambda>x y. key y \<le> key x) (py_sort key True xs)"
proof -
  have "sorted (map key (sort_key key (rev xs)))" by (rule sorted_sort_key)
  then have "sorted_wrt (\<lambda>x y. key x \<le> key y) (sort_key key (rev xs))"
    by (simp add: sorted_wrt_map)
  then show ?thesis by (simp add: py_sort_def sorted_wrt_rev)
qed


lemma length_sort_questions: "length (sort_questions sb r qs) = length qs"
  by (simp add: sort_questions_def length_py_sort)

text \<open>What the handler answers when \<open>limit\<close> is not 0, and that it fails otherwise.\<close>

lemma get_questions_Inr:
  assumes "limit a \<noteq> 0"
  shows "fst (get_questions lower catalog a) =
    Inr \<lparr>questions =
           py_slice
             (sort_questions (sort_by a) (sort_order a = ''desc'')
                (if truthy (search a) then filter (matches lower (search a)) catalog else catalog))
             ((page a - 1) * limit a) ((page a - 1) * limit a + limit a),
         pagination =
           \<lparr>p_page = page a, p_limit = limit a,
            total = int (length (if truthy (search a) then filter (matches lower (search a)) catalog
                                 else catalog)),
            totalPages =
              (int (length (if truthy (search a) then filter (matches lower (search a)) catalog
                            else catalog)) + limit a - 1) div limit a,
            hasPrev = (page a > 1),
            hasNext = (page a <
              (int (length (if truthy (search a) then filter (matches lower (search a)) catalog
                            else catalog)) + limit a - 1) div limit a)\<rparr>\<rparr>"
  using assms by (simp add: get_questions_def Let_def length_sort_questions)

lemma get_questions_Inl:
  "limit a = 0 \<Longrightarrow> fst (get_questions lower catalog a) = Inl UnhandledError"
  by (simp add: get_questions_def Let_def)

lemma get_questions_Inr_limit:
  "fst (get_questions lower catalog a) = Inr r \<Longrightarrow> limit a \<noteq> 0"
  using get_questions_Inl [of a lower catalog] by auto

lemma get_questions_catalog:
  "snd (get_questions lower catalog a) =
     (if truthy (search a) then catalog
      else sort_questions (sort_by a) (sort_order a = ''desc'') catalog)"
  by (simp add: get_questions_def Let_def)




lemma sort_questions_ascending:
  "sorted_wrt (\<lambda>x y. key_le sb x y) (sort_questions sb False qs)"
  unfolding sort_questions_def key_le_def
  by (simp add: py_sort_ascending)

lemma sort_questions_descending:
  "sorted_wrt (\<lambda>x y. key_le sb y x) (sort_questions sb True qs)"
  unfolding sort_questions_def key_le_def
  by (simp add: py_sort_descending)

lemma ceiling_by_div:
  assumes "1 \<le> (l::int)"
  shows "(t + l - 1) div l = \<lceil>real_of_int t / real_of_int l\<rceil>"
proof -
  define q where "q = t div l"
  define r where "r = t mod l"
  have t: "t = l * q + r"
    by (simp add: q_def r_def)
  have r: "0 \<le> r" "r < l"
    using assms by (simp_all add: r_def)
  have l0: "l \<noteq> 0"
    using assms by simp
  have up: "(t + l - 1) div l = (if r = 0 then q else q + 1)"
  proof (cases "r = 0")
    case True
    have "t + l - 1 = l * q + (l - 1)"
      using t True by simp
    moreover have "0 \<le> l - 1" "l - 1 < l"
      using assms by simp_all
    ultimately have "(t + l - 1) div l = q"
      by (rule int_div_pos_eq)
    with True show ?thesis by simp
  next
    case False
    have "t + l - 1 = l * (q + 1) + (r - 1)"
      using t by (simp add: algebra_simps)
    moreover have "0 \<le> r - 1" "r - 1 < l"
      using r False by simp_all
    ultimately have "(t + l - 1) div l = q + 1"
      by (rule int_div_pos_eq)
    with False show ?thesis by simp
  qed
  have "\<lceil>real_of_int t / real_of_int l\<rceil> = - (- t div l)"
    by (rule ceiling_divide_eq_div)
  also have "\<dots> = (if r = 0 then q else q + 1)"
    using l0 by (simp add: zdiv_zminus1_eq_if q_def r_def)
  finally show ?thesis
    using up by simp
qed

lemma not_given_iff: "not_given v \<longleftrightarrow> v = None \<or> v = Some []"
  by (cases v) (simp_all add: truthy_def)



lemma items_password: "map_of (items u) ''password'' = Some (JStr (password u))"
  by (simp add: items_def)

subsection \<open>Fetching one question\<close>

text \<open>
  Claim C7. For every integer id, \<open>get_question\<close> answers with a question of the
  catalog whose id is the one asked for when the catalog has one, and with
  \<open>NotFoundError\<close> (404) when it has none; it never answers with an unhandled
  error.
\<close>

theorem get_question_found_or_404:
  "((\<exists>q\<in>set catalog. qid q = i) \<longrightarrow>
      (\<exists>q. get_question catalog i = Inr q \<and> q \<in> set catalog \<and> qid q = i))
   \<and> ((\<forall>q\<in>set catalog. qid q \<noteq> i) \<longrightarrow>
      get_question catalog i = Inl NotFoundError
      \<and> status_code NotFoundError = 404)
   \<and> get_question catalog i \<noteq> Inl UnhandledError"
proof (cases "next_where (\<lambda>q. qid q = i) catalog")
  case None
  then have "\<forall>q\<in>set catalog. qid q \<noteq> i"
    by (simp add: next_where_None)
  with None show ?thesis
    by (simp add: get_question_def)
next
  case (Some q)
  then have "q \<in> set catalog \<and> qid q = i"
    by (rule next_where_Some)
  with Some show ?thesis
    by (auto simp: get_question_def)
qed

theorem get_question_found_or_404_witness:
  "(\<exists>q. get_question mock_questions 2 = Inr q \<and> q \<in> set mock_questions \<and> qid q = 2)
   \<and> get_question mock_questions 7 = Inl NotFoundError"
proof -
  have a: "\<exists>q\<in>set mock_questions. qid q = 2"
    by (simp add: mock_questions_def)
  have b: "\<forall>q\<in>set mock_questions. qid q \<noteq> 7"
    by (simp add: mock_questions_def)
  from a b get_question_found_or_404 [of mock_questions 2]
    get_question_found_or_404 [of mock_questions 7]
  show ?thesis by blast
qed

subsection \<open>Listing: search\<close>



subsection \<open>Listing: order of the page\<close>

text \<open>
  Claim C3. Whenever \<open>get_questions\<close> answers with a page, any two adjacent questions
  of the page are ordered by the key that \<open>sort_by\<close> names (\<open>voteCount\<close>,
  \<open>answerCount\<close> or \<open>viewCount\<close> as integers, for any other value \<open>createdAt\<close> as
  a string in lexicographic order): the earlier key is at least the later one when
  \<open>sort_order\<close> is \<open>desc\<close>, and at most the later one otherwise.
\<close>

theorem listing_page_is_sorted:
  assumes "fst (get_questions lower catalog a) = Inr r"
    and "Suc i < length (questions r)"
  shows "if sort_order a = ''desc''
         then key_le (sort_by a) (questions r ! Suc i) (questions r ! i)
         else key_le (sort_by a) (questions r ! i) (questions r ! Suc i)"
proof -
  define kept where
    "kept = (if truthy (search a) then filter (matches lower (search a)) catalog else catalog)"
  from assms(1) have "limit a \<noteq> 0"
    by (rule get_questions_Inr_limit)
  then have "fst (get_questions lower catalog a) = Inr \<lparr>questions =
      py_slice (sort_questions (sort_by a) (sort_order a = ''desc'') kept)
        ((page a - 1) * limit a) ((page a - 1) * limit a + limit a),
      pagination = \<lparr>p_page = page a, p_limit = limit a, total = int (length kept),
        totalPages = (int (length kept) + limit a - 1) div limit a,
        hasPrev = (page a > 1),
        hasNext = (page a < (int (length kept) + limit a - 1) div limit a)\<rparr>\<rparr>"
    unfolding kept_def by (rule get_questions_Inr)
  with assms(1) have qs: "questions r =
      py_slice (sort_questions (sort_by a) (sort_order a = ''desc'') kept)
        ((page a - 1) * limit a) ((page a - 1) * limit a + limit a)"
    by auto
  have i: "i < Suc i" by simp
  show ?thesis
  proof (cases "sort_order a = ''desc''")
    case True
    have "sorted_wrt (\<lambda>x y. key_le (sort_by a) y x) (sort_questions (sort_by a) True kept)"
      by (rule sort_questions_descending)
    then have "sorted_wrt (\<lambda>x y. key_le (sort_by a) y x) (questions r)"
      unfolding qs using True by (simp add: sorted_wrt_py_slice)
    then have "key_le (sort_by a) (questions r ! Suc i) (questions r ! i)"
      using i assms(2) by (simp add: sorted_wrt_iff_nth_less)
    with True show ?thesis by simp
  next
    case False
    have "sorted_wrt (\<lambda>x y. key_le (sort_by a) x y) (sort_questions (sort_by a) False kept)"
      by (rule sort_questions_ascending)
    then have "sorted_wrt (\<lambda>x y. key_le (sort_by a) x y) (questions r)"
      unfolding qs using False by (simp add: sorted_wrt_py_slice)
    then have "key_le (sort_by a) (questions r ! i) (questions r ! Suc i)"
      using i assms(2) by (simp add: sorted_wrt_iff_nth_less)
    with False show ?thesis by simp
  qed
qed

theorem listing_page_is_sorted_witness:
  "\<forall>lower. \<exists>r.
      fst (get_questions lower mock_questions (default_query\<lparr>sort_by := ''voteCount''\<rparr>))
        = Inr r
      \<and> Suc 0 < length (questions r)
      \<and> map voteCount (questions r) = [22, 15, 8]
      \<and> key_le ''voteCount'' (questions r ! Suc 0) (questions r ! 0)"
proof (rule allI)
  fix lower :: "string \<Rightarrow> string"
  define a where "a = default_query\<lparr>sort_by := ''voteCount''\<rparr>"
  define x where "x = fst (get_questions lower mock_questions a)"
  have "\<not> isl x \<and> map voteCount (questions (projr x)) = [22, 15, 8]"
    unfolding x_def a_def by code_simp
  then have e1: "\<not> isl x" and e2: "map voteCount (questions (projr x)) = [22, 15, 8]"
    by blast+
  from e1 have "x = Inr (projr x)"
    by (cases x) simp_all
  then have h: "fst (get_questions lower mock_questions a) = Inr (projr x)"
    by (simp only: x_def)
  from e2 have "length (map voteCount (questions (projr x))) = 3"
    by simp
  then have l: "Suc 0 < length (questions (projr x))"
    by simp
  have so: "sort_order a = ''desc''" and sb: "sort_by a = ''voteCount''"
    unfolding a_def by (simp_all add: default_query_def)
  from listing_page_is_sorted [OF h l]
  have e3: "key_le ''voteCount'' (questions (projr x) ! Suc 0) (questions (projr x) ! 0)"
    by (simp only: so sb if_True)
  from h l e2 e3 show "\<exists>r.
      fst (get_questions lower mock_questions (default_query\<lparr>sort_by := ''voteCount''\<rparr>))
        = Inr r
      \<and> Suc 0 < length (questions r)
      \<and> map voteCount (questions r) = [22, 15, 8]
      \<and> key_le ''voteCount'' (questions r ! Suc 0) (questions r ! 0)"
    unfolding a_def by (intro exI [of _ "projr x"] conjI)
qed

subsection \<open>Listing: the catalog afterwards\<close>

text \<open>
  Claim C2 says that listing leaves the catalog as it was. The stored list is sorted in
  place when the search string is empty (\<open>get_questions_catalog\<close>): on the catalog
  the module starts with, listing by \<open>voteCount\<close> with the other parameters at their
  defaults leaves the questions in the order 3, 1, 2 where they were 1, 2, 3. The
  lower-casing function plays no part, the search string being empty.
\<close>

theorem listing_reorders_catalog:
  "map qid mock_questions = [1, 2, 3]
   \<and> (\<forall>lower.
        map qid (snd (get_questions lower mock_questions
          (default_query\<lparr>sort_by := ''voteCount''\<rparr>))) = [3, 1, 2]
        \<and> snd (get_questions lower mock_questions (default_query\<lparr>sort_by := ''voteCount''\<rparr>))
            \<noteq> mock_questions)"
proof -
  have a: "map qid mock_questions = [1, 2, 3]"
    by code_simp
  have c: "map qid (snd (get_questions lower mock_questions
        (default_query\<lparr>sort_by := ''voteCount''\<rparr>))) = [3, 1, 2]
      \<and> snd (get_questions lower mock_questions (default_query\<lparr>sort_by := ''voteCount''\<rparr>))
          \<noteq> mock_questions" for lower
  proof -
    define after where "after =
      snd (get_questions lower mock_questions (default_query\<lparr>sort_by := ''voteCount''\<rparr>))"
    have b: "map qid after = [3, 1, 2]"
      unfolding after_def by code_simp
    have "after \<noteq> mock_questions"
    proof
      assume "after = mock_questions"
      with b have "map qid mock_questions = [3, 1, 2]"
        by simp
      with a show False
        by simp
    qed
    with b show ?thesis
      unfolding after_def by (rule conjI)
  qed
  have "\<forall>lower.
      map qid (snd (get_questions lower mock_questions
        (default_query\<lparr>sort_by := ''voteCount''\<rparr>))) = [3, 1, 2]
      \<and> snd (get_questions lower mock_questions (default_query\<lparr>sort_by := ''voteCount''\<rparr>))
          \<noteq> mock_questions"
    by (rule allI) (rule c)
  with a show ?thesis
    by (rule conjI)
qed

subsection \<open>Listing: pagination metadata\<close>

text \<open>
  Claim C4. For a limit of at least 1, \<open>get_questions\<close> answers with a page whose
  \<open>total\<close> is the number of questions after the filter and before the slice,
  whose \<open>totalPages\<close> is the ceiling of \<open>total / limit\<close>, which is what the integer
  computation \<open>(total + limit - 1) div limit\<close> gives, whose \<open>hasNext\<close> says that
  \<open>page\<close> is below \<open>totalPages\<close> and whose \<open>hasPrev\<close> says that \<open>page\<close> is above 1.
\<close>

theorem pagination_metadata:
  assumes "1 \<le> limit a"
  shows "\<exists>r. fst (get_questions lower catalog a) = Inr r
       \<and> total (pagination r) =
           int (length (if search a = [] then catalog
                        else filter (matches lower (search a)) catalog))
       \<and> totalPages (pagination r) =
           \<lceil>real_of_int (total (pagination r)) / real_of_int (limit a)\<rceil>
       \<and> (total (pagination r) + limit a - 1) div limit a =
           \<lceil>real_of_int (total (pagination r)) / real_of_int (limit a)\<rceil>
       \<and> hasNext (pagination r) = (page a < totalPages (pagination r))
       \<and> hasPrev (pagination r) = (1 < page a)"
proof -
  define kept where
    "kept = (if truthy (search a) then filter (matches lower (search a)) catalog else catalog)"
  define r where "r = \<lparr>questions =
      py_slice (sort_questions (sort_by a) (sort_order a = ''desc'') kept)
        ((page a - 1) * limit a) ((page a - 1) * limit a + limit a),
      pagination = \<lparr>p_page = page a, p_limit = limit a, total = int (length kept),
        totalPages = (int (length kept) + limit a - 1) div limit a,
        hasPrev = (page a > 1),
        hasNext = (page a < (int (length kept) + limit a - 1) div limit a)\<rparr>\<rparr>"
  from assms have "limit a \<noteq> 0"
    by simp
  then have ok: "fst (get_questions lower catalog a) = Inr r"
    unfolding kept_def r_def by (rule get_questions_Inr)
  have kept: "kept = (if search a = [] then catalog else filter (matches lower (search a)) catalog)"
    by (simp add: kept_def truthy_def)
  have tot: "total (pagination r) = int (length kept)"
    by (simp add: r_def)
  have pages: "totalPages (pagination r) = (total (pagination r) + limit a - 1) div limit a"
    by (simp add: r_def)
  have ceil: "(total (pagination r) + limit a - 1) div limit a =
      \<lceil>real_of_int (total (pagination r)) / real_of_int (limit a)\<rceil>"
    using assms by (rule ceiling_by_div)
  have nxt: "hasNext (pagination r) = (page a < totalPages (pagination r))"
    by (simp add: r_def)
  have prv: "hasPrev (pagination r) = (1 < page a)"
    by (simp add: r_def)
  from ok tot kept pages ceil nxt prv show ?thesis
    by (intro exI [of _ r] conjI) simp_all
qed

theorem pagination_metadata_witness:
  "\<forall>lower. \<exists>r.
      fst (get_questions lower mock_questions (default_query\<lparr>limit := 2\<rparr>)) = Inr r
      \<and> total (pagination r) = 3
      \<and> totalPages (pagination r) = 2
      \<and> totalPages (pagination r) = \<lceil>real_of_int (total (pagination r)) / real_of_int 2\<rceil>
      \<and> hasNext (pagination r)
      \<and> \<not> hasPrev (pagination r)"
proof (rule allI)
  fix lower :: "string \<Rightarrow> string"
  define a where "a = default_query\<lparr>limit := 2\<rparr>"
  have l: "limit a = 2" and p: "page a = 1" and s: "search a = []"
    unfolding a_def by (simp_all add: default_query_def)
  then have "1 \<le> limit a"
    by simp
  from pagination_metadata [OF this, of lower mock_questions] obtain r where
    ok: "fst (get_questions lower mock_questions a) = Inr r"
    and tot: "total (pagination r) = int (length (if search a = [] then mock_questions
        else filter (matches lower (search a)) mock_questions))"
    and pages: "totalPages (pagination r) =
        \<lceil>real_of_int (total (pagination r)) / real_of_int (limit a)\<rceil>"
    and dv: "(total (pagination r) + limit a - 1) div limit a =
        \<lceil>real_of_int (total (pagination r)) / real_of_int (limit a)\<rceil>"
    and nxt: "hasNext (pagination r) = (page a < totalPages (pagination r))"
    and prv: "hasPrev (pagination r) = (1 < page a)"
    by blast
  have len: "length mock_questions = 3"
    by (simp add: mock_questions_def)
  from tot s len have t3: "total (pagination r) = 3"
    by simp
  from dv pages t3 l have p2: "totalPages (pagination r) = 2"
    by simp
  from pages l have c: "totalPages (pagination r) =
      \<lceil>real_of_int (total (pagination r)) / real_of_int 2\<rceil>"
    by simp
  from nxt p p2 have n: "hasNext (pagination r)"
    by simp
  from prv p have v: "\<not> hasPrev (pagination r)"
    by simp
  from ok t3 p2 c n v show "\<exists>r.
      fst (get_questions lower mock_questions (default_query\<lparr>limit := 2\<rparr>)) = Inr r
      \<and> total (pagination r) = 3
      \<and> totalPages (pagination r) = 2
      \<and> totalPages (pagination r) = \<lceil>real_of_int (total (pagination r)) / real_of_int 2\<rceil>
      \<and> hasNext (pagination r)
      \<and> \<not> hasPrev (pagination r)"
    unfolding a_def by (intro exI [of _ r] conjI)
qed

subsection \<open>Listing: a page past the end\<close>

text \<open>
  Claim C8. For a page and a limit of at least 1 with \<open>(page - 1) * limit\<close> at or
  beyond the number of questions the filter keeps, \<open>get_questions\<close> answers without
  an error, with an empty list of questions and with \<open>total\<close> still the number of
  questions the filter keeps.
\<close>

theorem page_past_the_end_is_empty:
  assumes "1 \<le> page a" and "1 \<le> limit a"
    and "int (length (if search a = [] then catalog
                      else filter (matches lower (search a)) catalog)) \<le> (page a - 1) * limit a"
  shows "\<exists>r. fst (get_questions lower catalog a) = Inr r
       \<and> questions r = []
       \<and> total (pagination r) =
           int (length (if search a = [] then catalog
                        else filter (matches lower (search a)) catalog))"
proof -
  define kept where
    "kept = (if truthy (search a) then filter (matches lower (search a)) catalog else catalog)"
  define sorted_kept where
    "sorted_kept = sort_questions (sort_by a) (sort_order a = ''desc'') kept"
  define r where "r = \<lparr>questions =
      py_slice sorted_kept ((page a - 1) * limit a) ((page a - 1) * limit a + limit a),
      pagination = \<lparr>p_page = page a, p_limit = limit a, total = int (length kept),
        totalPages = (int (length kept) + limit a - 1) div limit a,
        hasPrev = (page a > 1),
        hasNext = (page a < (int (length kept) + limit a - 1) div limit a)\<rparr>\<rparr>"
  from assms(2) have "limit a \<noteq> 0"
    by simp
  then have ok: "fst (get_questions lower catalog a) = Inr r"
    unfolding kept_def sorted_kept_def r_def by (rule get_questions_Inr)
  have kept: "kept = (if search a = [] then catalog else filter (matches lower (search a)) catalog)"
    by (simp add: kept_def truthy_def)
  have "length sorted_kept = length kept"
    by (simp add: sorted_kept_def length_sort_questions)
  with assms(3) kept have far: "int (length sorted_kept) \<le> (page a - 1) * limit a"
    by simp
  from assms(1,2) have "0 \<le> (page a - 1) * limit a"
    by simp
  with far have "py_slice sorted_kept ((page a - 1) * limit a)
      ((page a - 1) * limit a + limit a) = []"
    by (rule py_slice_empty)
  then have none: "questions r = []"
    by (simp add: r_def)
  have tot: "total (pagination r) = int (length kept)"
    by (simp add: r_def)
  from ok none tot kept show ?thesis
    by (intro exI [of _ r] conjI) simp_all
qed

theorem page_past_the_end_is_empty_witness:
  "\<forall>lower. \<exists>r.
      fst (get_questions lower mock_questions (default_query\<lparr>page := 2\<rparr>)) = Inr r
      \<and> questions r = []
      \<and> total (pagination r) = 3"
proof (rule allI)
  fix lower :: "string \<Rightarrow> string"
  define a where "a = default_query\<lparr>page := 2\<rparr>"
  have l: "limit a = 20" and p: "page a = 2" and s: "search a = []"
    unfolding a_def by (simp_all add: default_query_def)
  have len: "length mock_questions = 3"
    by (simp add: mock_questions_def)
  have h1: "1 \<le> page a" and h2: "1 \<le> limit a"
    using l p by simp_all
  have h3: "int (length (if search a = [] then mock_questions
      else filter (matches lower (search a)) mock_questions)) \<le> (page a - 1) * limit a"
    using l p s len by simp
  from page_past_the_end_is_empty [OF h1 h2 h3] obtain r where
    ok: "fst (get_questions lower mock_questions a) = Inr r"
    and none: "questions r = []"
    and tot: "total (pagination r) = int (length (if search a = [] then mock_questions
        else filter (matches lower (search a)) mock_questions))"
    by blast
  from tot s len have t3: "total (pagination r) = 3"
    by simp
  from ok none t3 show "\<exists>r.
      fst (get_questions lower mock_questions (default_query\<lparr>page := 2\<rparr>)) = Inr r
      \<and> questions r = []
      \<and> total (pagination r) = 3"
    unfolding a_def by (intro exI [of _ r] conjI)
qed

subsection \<open>Registration: an email already in the directory\<close>

text \<open>
  Claim C5 says that a registration with an email of the directory is answered with
  \<open>ConflictError\<close> whatever the other fields hold. The presence test comes first: with
  the email of the demo user and an empty password the answer is \<open>ValidationError\<close>
  (400).
\<close>

theorem register_conflict_counterexample:
  "hd mock_users \<in> set mock_users
   \<and> email (hd mock_users) = ''demo@stackit.com''
   \<and> register mock_users
        (Some \<lparr>reg_email = Some ''demo@stackit.com'', reg_password = Some '''',
               reg_name = Some ''Eve''\<rparr>)
       = (Inl ValidationError, mock_users)
   \<and> status_code ValidationError = 400"
  by (simp add: register_def mock_users_def truthy_def)

text \<open>
  Claim C5, amended. For every registration request whose email, password and name are
  all present and not empty, and whose email is equal (as a string, case included) to
  the email of a user of the directory, \<open>register\<close> answers with \<open>ConflictError\<close> (409)
  and leaves the directory as it was, whatever the password and the name are.
\<close>

theorem register_conflict:
  assumes "reg_email d = Some e" and "e \<noteq> []"
    and "reg_password d = Some p" and "p \<noteq> []"
    and "reg_name d = Some n" and "n \<noteq> []"
    and "e \<in> email ` set users"
  shows "register users (Some d) = (Inl ConflictError, users)
       \<and> status_code ConflictError = 409"
proof -
  from assms(1-6) have given:
    "\<not> (not_given (reg_email d) \<or> not_given (reg_password d) \<or> not_given (reg_name d))"
    by (simp add: truthy_def)
  from assms(7) have "\<not> (\<forall>u\<in>set users. \<not> email u = e)"
    by auto
  then have "next_where (\<lambda>u. email u = e) users \<noteq> None"
    by (simp add: next_where_None)
  then obtain u where "next_where (\<lambda>u. email u = e) users = Some u"
    by auto
  with given assms(1) show ?thesis
    by (simp add: register_def)
qed

theorem register_conflict_witness:
  "register mock_users
     (Some \<lparr>reg_email = Some ''demo@stackit.com'', reg_password = Some ''other'',
            reg_name = Some ''Eve''\<rparr>)
   = (Inl ConflictError, mock_users)"
proof -
  define d where "d = \<lparr>reg_email = Some ''demo@stackit.com'', reg_password = Some ''other'',
      reg_name = Some ''Eve''\<rparr>"
  have 1: "reg_email d = Some ''demo@stackit.com''" and 2: "''demo@stackit.com'' \<noteq> []"
    and 3: "reg_password d = Some ''other''" and 4: "''other'' \<noteq> []"
    and 5: "reg_name d = Some ''Eve''" and 6: "''Eve'' \<noteq> []"
    by (simp_all add: d_def)
  have 7: "''demo@stackit.com'' \<in> email ` set mock_users"
    by (simp add: mock_users_def)
  from register_conflict [OF 1 2 3 4 5 6 7] show ?thesis
    by (simp only: d_def)
qed

subsection \<open>Creating a question\<close>

text \<open>
  Claim C6. \<open>create_question\<close> answers with \<open>ValidationError\<close> (400) and leaves the
  catalog as it was when the title or the description is missing, which for the
  presence test of the handler is a body that is absent, or a field that is absent or
  the empty string. Otherwise it appends exactly one record and answers with it: its
  id is the size of the catalog before the call plus 1, its title and description are
  those of the request, its author is the fixed demo author, its three counters are 0,
  \<open>isResolved\<close> is false, \<open>createdAt\<close> and \<open>updatedAt\<close> are the fixed timestamp, and
  its tags are those of the request, or the empty list when the request has none.
\<close>

theorem create_question_appends:
  "(missing_fields data \<longrightarrow>
      create_question catalog data = (Inl ValidationError, catalog)
      \<and> status_code ValidationError = 400)
   \<and> (\<not> missing_fields data \<longrightarrow>
      (\<exists>d t s q. data = Some d \<and> body_title d = Some t \<and> body_description d = Some s
        \<and> create_question catalog data = (Inr q, catalog @ [q])
        \<and> qid q = int (length catalog) + 1
        \<and> title q = t \<and> description q = s
        \<and> author q = \<lparr>author_id = 1, author_name = ''Current User'', author_reputation = 100\<rparr>
        \<and> tags q = (case body_tags d of None \<Rightarrow> [] | Some ts \<Rightarrow> ts)
        \<and> voteCount q = 0 \<and> answerCount q = 0 \<and> viewCount q = 0
        \<and> isResolved q = False
        \<and> createdAt q = ''2024-01-16T12:00:00Z''
        \<and> updatedAt q = ''2024-01-16T12:00:00Z''))"
proof (cases "missing_fields data")
  case True
  then have "create_question catalog data = (Inl ValidationError, catalog)"
    by (cases data) (auto simp: missing_fields_def create_question_def truthy_def)
  with True show ?thesis by simp
next
  case False
  then obtain d where d: "data = Some d"
    by (cases data) (auto simp: missing_fields_def)
  with False have g: "\<not> not_given (body_title d)" "\<not> not_given (body_description d)"
    by (simp_all add: missing_fields_def not_given_iff)
  then obtain t s where ts: "body_title d = Some t" "body_description d = Some s"
    by (auto simp: not_given_iff)
  define q where "q =
    \<lparr>qid = int (length catalog) + 1, title = t, description = s,
     author = \<lparr>author_id = 1, author_name = ''Current User'', author_reputation = 100\<rparr>,
     tags = (case body_tags d of None \<Rightarrow> [] | Some ts \<Rightarrow> ts),
     voteCount = 0, answerCount = 0, viewCount = 0, isResolved = False,
     createdAt = ''2024-01-16T12:00:00Z'', updatedAt = ''2024-01-16T12:00:00Z''\<rparr>"
  from d g ts have "create_question catalog data = (Inr q, catalog @ [q])"
    by (simp add: create_question_def q_def Let_def)
  moreover have "qid q = int (length catalog) + 1" "title q = t" "description q = s"
    "author q = \<lparr>author_id = 1, author_name = ''Current User'', author_reputation = 100\<rparr>"
    "tags q = (case body_tags d of None \<Rightarrow> [] | Some ts \<Rightarrow> ts)"
    "voteCount q = 0" "answerCount q = 0" "viewCount q = 0" "isResolved q = False"
    "createdAt q = ''2024-01-16T12:00:00Z''" "updatedAt q = ''2024-01-16T12:00:00Z''"
    by (simp_all add: q_def)
  ultimately show ?thesis
    using False d ts by blast
qed

theorem create_question_appends_witness:
  "create_question mock_questions
     (Some \<lparr>body_title = None, body_description = Some ''d'', body_tags = None\<rparr>)
     = (Inl ValidationError, mock_questions)
   \<and> (\<exists>q. create_question mock_questions
          (Some \<lparr>body_title = Some ''t'', body_description = Some ''d'', body_tags = None\<rparr>)
          = (Inr q, mock_questions @ [q])
        \<and> qid q = 4 \<and> title q = ''t'' \<and> description q = ''d'' \<and> tags q = []
        \<and> voteCount q = 0 \<and> isResolved q = False)"
proof -
  define bad where
    "bad = Some \<lparr>body_title = None, body_description = Some ''d'', body_tags = None\<rparr>"
  define good where
    "good = Some \<lparr>body_title = Some ''t'', body_description = Some ''d'', body_tags = None\<rparr>"
  have b: "missing_fields bad"
    by (simp add: bad_def missing_fields_def)
  have g: "\<not> missing_fields good"
    by (simp add: good_def missing_fields_def truthy_def)
  have len: "length mock_questions = 3"
    by (simp add: mock_questions_def)
  from b create_question_appends [of bad mock_questions]
  have 1: "create_question mock_questions bad = (Inl ValidationError, mock_questions)"
    by blast
  from g create_question_appends [of good mock_questions]
  obtain d t s q where
    "good = Some d" "body_title d = Some t" "body_description d = Some s"
    "create_question mock_questions good = (Inr q, mock_questions @ [q])"
    "qid q = int (length mock_questions) + 1" "title q = t" "description q = s"
    "tags q = (case body_tags d of None \<Rightarrow> [] | Some ts \<Rightarrow> ts)"
    "voteCount q = 0" "isResolved q = False"
    by blast
  with len have 2: "\<exists>q. create_question mock_questions good = (Inr q, mock_questions @ [q])
        \<and> qid q = 4 \<and> title q = ''t'' \<and> description q = ''d'' \<and> tags q = []
        \<and> voteCount q = 0 \<and> isResolved q = False"
    by (auto simp: good_def)
  from 1 2 show ?thesis
    unfolding bad_def good_def by (rule conjI)
qed

subsection \<open>User objects in responses\<close>



subsection \<open>Empty strings in required fields\<close>

text \<open>
  Claim C10. A registration, a login or a question whose required field is present as
  the empty string is answered with \<open>ValidationError\<close> (400), the data left as it was:
  the same answer as when that field is absent. This holds for any directory, so also
  when the email of the registration is already in it.
\<close>

theorem empty_string_counts_as_missing:
  "(reg_email d = Some [] \<or> reg_password d = Some [] \<or> reg_name d = Some [] \<longrightarrow>
      register users (Some d) = (Inl ValidationError, users))
   \<and> (reg_email d = Some [] \<longrightarrow>
      register users (Some d) = register users (Some (d\<lparr>reg_email := None\<rparr>)))
   \<and> (reg_password d = Some [] \<longrightarrow>
      register users (Some d) = register users (Some (d\<lparr>reg_password := None\<rparr>)))
   \<and> (reg_name d = Some [] \<longrightarrow>
      register users (Some d) = register users (Some (d\<lparr>reg_name := None\<rparr>)))
   \<and> (login_email l = Some [] \<or> login_password l = Some [] \<longrightarrow>
      login users (Some l) = Inl ValidationError)
   \<and> (login_email l = Some [] \<longrightarrow>
      login users (Some l) = login users (Some (l\<lparr>login_email := None\<rparr>)))
   \<and> (login_password l = Some [] \<longrightarrow>
      login users (Some l) = login users (Some (l\<lparr>login_password := None\<rparr>)))
   \<and> (body_title b = Some [] \<or> body_description b = Some [] \<longrightarrow>
      create_question catalog (Some b) = (Inl ValidationError, catalog))
   \<and> (body_title b = Some [] \<longrightarrow>
      create_question catalog (Some b) = create_question catalog (Some (b\<lparr>body_title := None\<rparr>)))
   \<and> (body_description b = Some [] \<longrightarrow>
      create_question catalog (Some b)
        = create_question catalog (Some (b\<lparr>body_description := None\<rparr>)))
   \<and> status_code ValidationError = 400"
proof -
  have r: "register users (Some d) = (Inl ValidationError, users)"
    if "reg_email d = Some [] \<or> reg_password d = Some [] \<or> reg_name d = Some []"
    using that by (auto simp: register_def truthy_def)
  have r1: "register users (Some (d\<lparr>reg_email := None\<rparr>)) = (Inl ValidationError, users)"
    by (simp add: register_def)
  have r2: "register users (Some (d\<lparr>reg_password := None\<rparr>)) = (Inl ValidationError, users)"
    by (simp add: register_def)
  have r3: "register users (Some (d\<lparr>reg_name := None\<rparr>)) = (Inl ValidationError, users)"
    by (simp add: register_def)
  have l: "login users (Some l) = Inl ValidationError"
    if "login_email l = Some [] \<or> login_password l = Some []"
    using that by (auto simp: login_def truthy_def)
  have l1: "login users (Some (l\<lparr>login_email := None\<rparr>)) = Inl ValidationError"
    by (simp add: login_def)
  have l2: "login users (Some (l\<lparr>login_password := None\<rparr>)) = Inl ValidationError"
    by (simp add: login_def)
  have c: "create_question catalog (Some b) = (Inl ValidationError, catalog)"
    if "body_title b = Some [] \<or> body_description b = Some []"
    using that by (auto simp: create_question_def truthy_def)
  have c1: "create_question catalog (Some (b\<lparr>body_title := None\<rparr>))
      = (Inl ValidationError, catalog)"
    by (simp add: create_question_def)
  have c2: "create_question catalog (Some (b\<lparr>body_description := None\<rparr>))
      = (Inl ValidationError, catalog)"
    by (simp add: create_question_def)
  show ?thesis
    using r r1 r2 r3 l l1 l2 c c1 c2 by simp
qed

theorem empty_string_counts_as_missing_witness:
  "email (hd mock_users) = ''demo@stackit.com''
   \<and> register mock_users
        (Some \<lparr>reg_email = Some ''demo@stackit.com'', reg_password = Some '''',
               reg_name = Some ''Eve''\<rparr>) = (Inl ValidationError, mock_users)
   \<and> login mock_users (Some \<lparr>login_email = Some '''', login_password = Some ''demo123''\<rparr>)
       = Inl ValidationError
   \<and> create_question mock_questions
        (Some \<lparr>body_title = Some ''t'', body_description = Some '''', body_tags = None\<rparr>)
       = (Inl ValidationError, mock_questions)"
proof -
  define d where "d = \<lparr>reg_email = Some ''demo@stackit.com'', reg_password = Some '''',
    reg_name = Some ''Eve''\<rparr>"
  define l where "l = \<lparr>login_email = Some '''', login_password = Some ''demo123''\<rparr>"
  define b where
    "b = \<lparr>body_title = Some ''t'', body_description = Some '''', body_tags = None\<rparr>"
  have hd: "reg_password d = Some []"
    by (simp add: d_def)
  have hl: "login_email l = Some []"
    by (simp add: l_def)
  have hb: "body_description b = Some []"
    by (simp add: b_def)
  have e: "email (hd mock_users) = ''demo@stackit.com''"
    by (simp add: mock_users_def)
  from empty_string_counts_as_missing [of d mock_users l b mock_questions] hd hl hb
  have "register mock_users (Some d) = (Inl ValidationError, mock_users)"
    and "login mock_users (Some l) = Inl ValidationError"
    and "create_question mock_questions (Some b) = (Inl ValidationError, mock_questions)"
    by blast+
  with e show ?thesis
    unfolding d_def l_def b_def by (intro conjI)
qed

end
